theory Spec2Isabelle
  imports Complex_Main "HOL-Library.Word" "HOL-Library.Multiset"
begin

section \<open>Numbers and data of ReflectionDetector.ts\<close>

text \<open>
  A JavaScript number is modelled as \<open>real option\<close>: \<open>Some v\<close> is the finite value
  \<open>v\<close>, \<open>None\<close> is a value that is not finite. Arithmetic is exact (the rounding of
  IEEE doubles and of the Float32Array is not modelled). In the image path the only
  non-finite value that arises is NaN (from reading \<open>undefined\<close> past the end of an
  array), and every arithmetic operation propagates it; a comparison with NaN is false.
  In the projector a division by zero gives NaN or an infinity, again propagated by
  the following multiplication and addition; no comparison is applied there.

  With exact arithmetic a value of the model can differ from the double of the code
  by the rounding error of a few operations: the luma of the pixel (128,128,128) is
  128 here and the double next below 128 in the code. A comparison with a threshold
  is the same in both unless the exact value lies within that error of the threshold.
\<close>

type_synonym num = "real option"

definition lift2 :: "(real \<Rightarrow> real \<Rightarrow> real) \<Rightarrow> num \<Rightarrow> num \<Rightarrow> num" where
  "lift2 f a b = (case a of None \<Rightarrow> None | Some u \<Rightarrow> (case b of None \<Rightarrow> None | Some v \<Rightarrow> Some (f u v)))"

definition nadd :: "num \<Rightarrow> num \<Rightarrow> num" where
  "nadd = lift2 (\<lambda>u v. u + v)"

definition nsub :: "num \<Rightarrow> num \<Rightarrow> num" where
  "nsub = lift2 (\<lambda>u v. u - v)"

definition nmul :: "num \<Rightarrow> num \<Rightarrow> num" where
  "nmul = lift2 (\<lambda>u v. u * v)"

definition ndiv :: "num \<Rightarrow> num \<Rightarrow> num" where
  "ndiv a b = (case b of None \<Rightarrow> None | Some v \<Rightarrow> if v = 0 then None else lift2 (\<lambda>u w. u / w) a b)"

definition nneg :: "num \<Rightarrow> num" where
  "nneg a = map_option uminus a"

definition nsqrt :: "num \<Rightarrow> num" where
  \<comment> \<open>\<open>Math.sqrt\<close>: NaN on NaN and on a negative argument.\<close>
  "nsqrt a = (case a of None \<Rightarrow> None | Some v \<Rightarrow> if v < 0 then None else Some (sqrt v))"

definition ngt :: "num \<Rightarrow> real \<Rightarrow> bool" where
  \<comment> \<open>\<open>a > t\<close>: false when \<open>a\<close> is NaN (or \<open>undefined\<close>).\<close>
  "ngt a t = (case a of None \<Rightarrow> False | Some v \<Rightarrow> t < v)"

datatype error = TypeError | IndexSizeError

record Color =
  col_r :: real
  col_g :: real
  col_b :: real

record BrightPoint =
  pt_x :: nat
  pt_y :: nat
  brightness :: real
  color :: Color

record Vector3 =
  vx :: num
  vy :: num
  vz :: num

text \<open>The private fields of the class with their initial values; nothing assigns them.\<close>

definition brightnessThreshold :: real where
  "brightnessThreshold = 200"

definition edgeThreshold :: real where
  "edgeThreshold = 0.2"

definition projectionDistance :: real where
  "projectionDistance = 0.1"

definition maxBrightPoints :: nat where
  "maxBrightPoints = 5"

section \<open>convertToWorldPosition\<close>

definition convertToWorldPosition :: "nat \<Rightarrow> nat \<Rightarrow> nat \<Rightarrow> nat \<Rightarrow> Vector3" where
  "convertToWorldPosition x y width height =
     (let normalizedX = nsub (nmul (ndiv (Some (real x)) (Some (real width))) (Some 2)) (Some 1);
          normalizedY = nadd (nmul (ndiv (nneg (Some (real y))) (Some (real height))) (Some 2)) (Some 1)
      in \<lparr>vx = normalizedX, vy = normalizedY, vz = Some 0\<rparr>)"

section \<open>applySobelFilter\<close>

text \<open>
  \<open>pixels\<close> is a \<open>Uint8ClampedArray\<close>: reading an index outside it gives
  \<open>undefined\<close>, which the arithmetic of the luma turns into NaN.
\<close>

definition px :: "8 word list \<Rightarrow> int \<Rightarrow> num" where
  "px pixels k = (if 0 \<le> k \<and> k < int (length pixels) then Some (real (unat (pixels ! nat k))) else None)"

definition luma :: "8 word list \<Rightarrow> int \<Rightarrow> num" where
  "luma pixels i =
     nadd (nadd (nmul (Some 0.299) (px pixels i)) (nmul (Some 0.587) (px pixels (i + 1))))
          (nmul (Some 0.114) (px pixels (i + 2)))"

definition gx :: "real list list" where
  "gx = [[-1, 0, 1], [-2, 0, 2], [-1, 0, 1]]"

definition gy :: "real list list" where
  "gy = [[-1, -2, -1], [0, 0, 0], [1, 2, 1]]"

text \<open>The body of the two innermost loops (\<open>i\<close>, \<open>j\<close> from -1 to 1) on the pair \<open>(sumX, sumY)\<close>.\<close>

definition sobel_step :: "8 word list \<Rightarrow> nat \<Rightarrow> nat \<Rightarrow> nat \<Rightarrow> num \<times> num \<Rightarrow> int \<times> int \<Rightarrow> num \<times> num" where
  "sobel_step pixels width y x acc ij =
     (case acc of (sumX, sumY) \<Rightarrow> (case ij of (i, j) \<Rightarrow>
        (let pixelIndex = ((int y + i) * int width + (int x + j)) * 4;
             brightness = luma pixels pixelIndex
         in (nadd sumX (nmul brightness (Some (gx ! nat (i + 1) ! nat (j + 1)))),
             nadd sumY (nmul brightness (Some (gy ! nat (i + 1) ! nat (j + 1))))))))"

text \<open>\<open>(sumX, sumY)\<close> after the two innermost loops, for one interior pixel.\<close>

definition sobel_sums :: "8 word list \<Rightarrow> nat \<Rightarrow> nat \<Rightarrow> nat \<Rightarrow> num \<times> num" where
  "sobel_sums pixels width y x =
     foldl (sobel_step pixels width y x) (Some 0, Some 0) (List.product [-1, 0, 1] [-1, 0, 1])"

text \<open>The value stored in \<open>gradients[y][x]\<close> for one interior pixel.\<close>

definition sobel_pixel :: "8 word list \<Rightarrow> nat \<Rightarrow> nat \<Rightarrow> nat \<Rightarrow> num" where
  "sobel_pixel pixels width y x =
     (case sobel_sums pixels width y x of
        (sumX, sumY) \<Rightarrow> nsqrt (nadd (nmul sumX sumX) (nmul sumY sumY)))"

text \<open>
  \<open>gradients[y][x] = v\<close>; every store of the function is to a row and a column that the
  first pair of loops has created, so the array is never extended.
\<close>

definition store2 :: "num list list \<Rightarrow> nat \<Rightarrow> nat \<Rightarrow> num \<Rightarrow> num list list" where
  "store2 gradients y x v = gradients[y := (gradients ! y)[x := v]]"

definition applySobelFilter :: "8 word list \<Rightarrow> nat \<Rightarrow> nat \<Rightarrow> num list list" where
  "applySobelFilter pixels width height =
     foldl (\<lambda>gradients y.
              foldl (\<lambda>gradients x. store2 gradients y x (sobel_pixel pixels width y x))
                    gradients [1..<width - 1])
           (replicate height (replicate width (Some 0))) [1..<height - 1]"

section \<open>findBrightPoints\<close>

text \<open>
  \<open>edges[x][y]\<close>: a TypeError when \<open>edges[x]\<close> is \<open>undefined\<close>, and \<open>undefined\<close>
  (NaN in the comparison that follows) when the row has no index \<open>y\<close>.
\<close>

definition edge_at :: "num list list \<Rightarrow> nat \<Rightarrow> nat \<Rightarrow> error + num" where
  "edge_at edges x y =
     (if x < length edges then Inr (if y < length (edges ! x) then edges ! x ! y else None)
      else Inl TypeError)"

text \<open>
  One iteration of the loop over \<open>i\<close>: the point pushed, if any (\<open>lum\<close> is the
  local \<open>brightness\<close>). \<open>i\<close> is a multiple
  of 4, so \<open>i / 4\<close> is the integer \<open>i div 4\<close>. With \<open>width = 0\<close> the remainder \<open>x\<close>
  is NaN and \<open>edges[x]\<close> is \<open>undefined\<close>. The conjunction \<open>&&\<close> reads \<open>edges\<close> only when
  the brightness test has passed, and then the three channels read are inside the array.
\<close>

definition scan_pixel :: "8 word list \<Rightarrow> nat \<Rightarrow> num list list \<Rightarrow> nat \<Rightarrow> error + BrightPoint option" where
  "scan_pixel pixels width edges i =
     (case luma pixels (int i) of
        None \<Rightarrow> Inr None
      | Some lum \<Rightarrow>
          if brightnessThreshold < lum then
            (if width = 0 then Inl TypeError
             else (let x = (i div 4) mod width; y = (i div 4) div width in
               (case edge_at edges x y of
                  Inl e \<Rightarrow> Inl e
                | Inr e \<Rightarrow>
                    if ngt e edgeThreshold then
                      Inr (Some \<lparr>pt_x = x, pt_y = y, brightness = lum,
                        color = \<lparr>col_r = real (unat (pixels ! i)) / 255,
                                 col_g = real (unat (pixels ! (i + 1))) / 255,
                                 col_b = real (unat (pixels ! (i + 2))) / 255\<rparr>\<rparr>)
                    else Inr None)))
          else Inr None)"

function findBrightPoints_loop ::
  "8 word list \<Rightarrow> nat \<Rightarrow> num list list \<Rightarrow> nat \<Rightarrow> BrightPoint list \<Rightarrow> error + BrightPoint list" where
  "findBrightPoints_loop pixels width edges i brightPoints =
     (if i < length pixels then
        (case scan_pixel pixels width edges i of
           Inl e \<Rightarrow> Inl e
         | Inr None \<Rightarrow> findBrightPoints_loop pixels width edges (i + 4) brightPoints
         | Inr (Some p) \<Rightarrow> findBrightPoints_loop pixels width edges (i + 4) (brightPoints @ [p]))
      else Inr brightPoints)"
  by pat_completeness auto
termination
  by (relation "measure (\<lambda>(pixels, width, edges, i, brightPoints). length pixels - i)") auto

declare findBrightPoints_loop.simps [simp del]

definition findBrightPoints :: "8 word list \<Rightarrow> nat \<Rightarrow> nat \<Rightarrow> error + BrightPoint list" where
  "findBrightPoints pixels width height =
     findBrightPoints_loop pixels width (applySobelFilter pixels width height) 0 []"

section \<open>updateParticleSystem\<close>

text \<open>
  \<open>Array.prototype.sort\<close> is stable; with the comparator \<open>b.brightness - a.brightness\<close>
  it is a stable sort by descending brightness. Assigning \<open>length\<close> truncates the array.
\<close>

definition rank :: "BrightPoint list \<Rightarrow> BrightPoint list" where
  "rank brightPoints =
     (let sorted = sort_key (\<lambda>p. - brightness p) brightPoints
      in if maxBrightPoints < length sorted then take maxBrightPoints sorted else sorted)"

text \<open>
  \<open>BufferAttribute.setXYZ\<close> on an attribute of item size 3: three stores into the
  Float32Array, which ignores a store outside its length.
\<close>

definition setXYZ :: "num list \<Rightarrow> nat \<Rightarrow> num \<Rightarrow> num \<Rightarrow> num \<Rightarrow> num list" where
  "setXYZ positions i x y z = positions[i * 3 := x, i * 3 + 1 := y, i * 3 + 2 := z]"

definition write_point :: "BrightPoint list \<Rightarrow> nat \<Rightarrow> nat \<Rightarrow> num list \<Rightarrow> nat \<Rightarrow> num list" where
  "write_point brightPoints videoWidth videoHeight positions i =
     (let p = brightPoints ! i;
          worldPos = convertToWorldPosition (pt_x p) (pt_y p) videoWidth videoHeight
      in setXYZ positions i (vx worldPos) (vy worldPos) (nsub (vz worldPos) (Some projectionDistance)))"

definition updateParticleSystem :: "BrightPoint list \<Rightarrow> nat \<Rightarrow> nat \<Rightarrow> num list \<Rightarrow> num list" where
  "updateParticleSystem brightPoints videoWidth videoHeight positions =
     (let ranked = rank brightPoints
      in foldl (write_point ranked videoWidth videoHeight) positions [0..<length ranked])"

section \<open>The driver: constructor, initWebcam, initParticleSystem, detectReflections\<close>

definition initParticleSystem :: "num list" where
  \<comment> \<open>\<open>new Float32Array(particleCount * 3)\<close>: all zero.\<close>
  "initParticleSystem = replicate (maxBrightPoints * 3) (Some 0)"

text \<open>
  One processing pass on a captured frame: \<open>getImageData\<close> raises an IndexSizeError for
  a width or a height of zero; then \<open>findBrightPoints\<close> and \<open>updateParticleSystem\<close>.
\<close>

definition process_frame :: "8 word list \<Rightarrow> nat \<Rightarrow> nat \<Rightarrow> num list \<Rightarrow> error + num list" where
  "process_frame pixels width height positions =
     (if width = 0 \<or> height = 0 then Inl IndexSizeError
      else (case findBrightPoints pixels width height of
              Inl e \<Rightarrow> Inl e
            | Inr brightPoints \<Rightarrow> Inr (updateParticleSystem brightPoints width height positions)))"

text \<open>
  The state of the driver that its callbacks read and write, with two counters that
  the code does not hold: the calls of \<open>getUserMedia\<close> and the passes begun (a ready
  frame and a drawing context). An exception in a pass leaves \<open>detectReflections\<close>
  before it requests the next animation frame, as does the early return on a missing
  context.
\<close>

record Driver =
  console :: "string list"
  promise_pending :: bool
  stream_attached :: bool
  frame_requested :: bool
  getUserMedia_calls :: nat
  passes :: nat
  particles :: "num list"

text \<open>What the video element and the canvas offer when an animation frame fires.\<close>

record Video =
  have_enough_data :: bool
  context_2d :: bool
  videoWidth :: nat
  videoHeight :: nat
  imageData :: "8 word list"

datatype event = Resolved | Rejected string | AnimationFrame Video

definition constructor :: Driver where
  "constructor = \<lparr>console = [], promise_pending = True, stream_attached = False,
     frame_requested = False, getUserMedia_calls = 1, passes = 0,
     particles = initParticleSystem\<rparr>"

definition detectReflections :: "Video \<Rightarrow> Driver \<Rightarrow> Driver" where
  "detectReflections v d =
     (if have_enough_data v then
        (if \<not> context_2d v then d
         else (case process_frame (imageData v) (videoWidth v) (videoHeight v) (particles d) of
                 Inl e \<Rightarrow> d\<lparr>passes := passes d + 1\<rparr>
               | Inr positions \<Rightarrow>
                   d\<lparr>passes := passes d + 1, particles := positions, frame_requested := True\<rparr>))
      else d\<lparr>frame_requested := True\<rparr>)"

text \<open>
  The host runs a callback only when it is registered: the handlers of the promise
  while it is pending, \<open>detectReflections\<close> when an animation frame was requested
  (which consumes the request).
\<close>

fun step :: "Driver \<Rightarrow> event \<Rightarrow> Driver" where
  "step d Resolved =
     (if promise_pending d
      then d\<lparr>promise_pending := False, stream_attached := True, frame_requested := True\<rparr>
      else d)"
| "step d (Rejected err) =
     (if promise_pending d
      then d\<lparr>promise_pending := False,
             console := console d @ [''Webcam initialization failed: '' @ err]\<rparr>
      else d)"
| "step d (AnimationFrame v) =
     (if frame_requested d then detectReflections v (d\<lparr>frame_requested := False\<rparr>) else d)"

definition run :: "Driver \<Rightarrow> event list \<Rightarrow> Driver" where
  "run d evs = foldl step d evs"

section \<open>The frame invariant and the convolution as the specification words it\<close>

definition frame_inv :: "8 word list \<Rightarrow> nat \<Rightarrow> nat \<Rightarrow> bool" where
  "frame_inv pixels width height \<longleftrightarrow> length pixels = width * height * 4 \<and> 0 < width \<and> 0 < height"

text \<open>The luma 0.299R + 0.587G + 0.114B of the pixel in column \<open>x\<close> of row \<open>y\<close>.\<close>

definition spec_luma :: "8 word list \<Rightarrow> nat \<Rightarrow> nat \<Rightarrow> nat \<Rightarrow> real" where
  "spec_luma pixels width x y =
     0.299 * real (unat (pixels ! ((y * width + x) * 4)))
     + 0.587 * real (unat (pixels ! ((y * width + x) * 4 + 1)))
     + 0.114 * real (unat (pixels ! ((y * width + x) * 4 + 2)))"

text \<open>
  The convolution of the lumas of the 3x3 neighbourhood of \<open>(x, y)\<close> with a kernel
  \<open>k\<close>, whose row \<open>i\<close> and column \<open>j\<close> weigh the pixel \<open>(x + j - 1, y + i - 1)\<close>.
\<close>

definition spec_conv :: "real list list \<Rightarrow> 8 word list \<Rightarrow> nat \<Rightarrow> nat \<Rightarrow> nat \<Rightarrow> real" where
  "spec_conv k pixels width x y =
     (\<Sum>i = 0..<3. \<Sum>j = 0..<3. spec_luma pixels width (x + j - 1) (y + i - 1) * (k ! i ! j))"

definition spec_magnitude :: "8 word list \<Rightarrow> nat \<Rightarrow> nat \<Rightarrow> nat \<Rightarrow> real" where
  "spec_magnitude pixels width x y =
     sqrt ((spec_conv gx pixels width x y)\<^sup>2 + (spec_conv gy pixels width x y)\<^sup>2)"

section \<open>Concrete frames\<close>

text \<open>
  The 4x4 frame of the end-to-end scenario: mid-gray everywhere, pixel (2,2) white.
\<close>

definition gray :: "8 word list" where
  "gray = [128, 128, 128, 255]"

definition white :: "8 word list" where
  "white = [255, 255, 255, 255]"

definition black :: "8 word list" where
  "black = [0, 0, 0, 255]"

definition scenario :: "8 word list" where
  "scenario = concat (replicate 10 gray) @ white @ concat (replicate 5 gray)"

text \<open>A 4x4 frame, black everywhere but for a white pixel in column 2 of row 1.\<close>

definition offdiag :: "8 word list" where
  "offdiag = concat (replicate 6 black) @ white @ concat (replicate 9 black)"

text \<open>A frame of width 2 and height 1: a black pixel, then a white one.\<close>

definition wide :: "8 word list" where
  "wide = black @ white"

text \<open>A 4x4 frame, black everywhere but for white pixels at (1,1) and (2,2).\<close>

definition diag2 :: "8 word list" where
  "diag2 = concat (replicate 5 black) @ white @ concat (replicate 4 black) @ white
           @ concat (replicate 5 black)"

definition diag2_points :: "BrightPoint list" where
  "diag2_points =
     [\<lparr>pt_x = 1, pt_y = 1, brightness = 255, color = \<lparr>col_r = 1, col_g = 1, col_b = 1\<rparr>\<rparr>,
      \<lparr>pt_x = 2, pt_y = 2, brightness = 255, color = \<lparr>col_r = 1, col_g = 1, col_b = 1\<rparr>\<rparr>]"

text \<open>A captured frame showing \<open>diag2\<close>, and a particle buffer with every entry 7.\<close>

definition diag2_video :: Video where
  "diag2_video = \<lparr>have_enough_data = True, context_2d = True, videoWidth = 4, videoHeight = 4,
     imageData = diag2\<rparr>"

definition sevens :: "num list" where
  "sevens = replicate 15 (Some 7)"

text \<open>The point of the white pixel of \<open>offdiag\<close>.\<close>

definition offdiag_point :: BrightPoint where
  "offdiag_point = \<lparr>pt_x = 2, pt_y = 1, brightness = 255, color = \<lparr>col_r = 1, col_g = 1, col_b = 1\<rparr>\<rparr>"

text \<open>Candidates that differ in brightness only, for the ranker.\<close>

definition pt :: "real \<Rightarrow> BrightPoint" where
  "pt b = \<lparr>pt_x = 0, pt_y = 0, brightness = b, color = \<lparr>col_r = 1, col_g = 1, col_b = 1\<rparr>\<rparr>"

definition candidates7 :: "BrightPoint list" where
  "candidates7 = [pt 210, pt 250, pt 201, pt 230, pt 220, pt 240, pt 205]"

definition candidates2 :: "BrightPoint list" where
  "candidates2 = [pt 210, pt 250]"

text \<open>
  The value that the loop of \<open>updateParticleSystem\<close> stores at index \<open>k\<close> of the position
  array, for the ranked point \<open>k div 3\<close>: its projected x, y, or z less the projection
  distance.
\<close>

definition written :: "BrightPoint list \<Rightarrow> nat \<Rightarrow> nat \<Rightarrow> nat \<Rightarrow> num" where
  "written ranked width height k =
     (let p = ranked ! (k div 3);
          worldPos = convertToWorldPosition (pt_x p) (pt_y p) width height
      in [vx worldPos, vy worldPos, nsub (vz worldPos) (Some projectionDistance)] ! (k mod 3))"

section \<open>The edge map: shape and values\<close>

lemma row_fold_nth:
  "k < length r \<Longrightarrow> foldl (\<lambda>r x. r[x := f x]) r xs ! k = (if k \<in> set xs then f k else r ! k)"
  by (induction xs arbitrary: r) (auto simp: nth_list_update)

lemma row_fold_length: "length (foldl (\<lambda>r x. r[x := f x]) r xs) = length r"
  by (induction xs arbitrary: r) auto

lemma store_fold:
  "y < length g \<Longrightarrow>
   foldl (\<lambda>g x. store2 g y x (f x)) g xs = g[y := foldl (\<lambda>r x. r[x := f x]) (g ! y) xs]"
  by (induction xs arbitrary: g) (auto simp: store2_def)

lemma rows_fold_length:
  "\<forall>y\<in>set ys. y < length g \<Longrightarrow>
   length (foldl (\<lambda>g y. foldl (\<lambda>g x. store2 g y x (f y x)) g xs) g ys) = length g"
  by (induction ys arbitrary: g) (auto simp: store_fold)

lemma rows_fold_nth:
  "\<forall>y\<in>set ys. y < length g \<Longrightarrow> distinct ys \<Longrightarrow> k < length g \<Longrightarrow>
   foldl (\<lambda>g y. foldl (\<lambda>g x. store2 g y x (f y x)) g xs) g ys ! k =
     (if k \<in> set ys then foldl (\<lambda>r x. r[x := f k x]) (g ! k) xs else g ! k)"
  by (induction ys arbitrary: g) (auto simp: store_fold nth_list_update)

lemma applySobelFilter_length: "length (applySobelFilter pixels width height) = height"
  unfolding applySobelFilter_def by (subst rows_fold_length) auto

lemma applySobelFilter_row:
  assumes "y < height"
  shows "applySobelFilter pixels width height ! y =
     (if 1 \<le> y \<and> y < height - 1
      then foldl (\<lambda>r x. r[x := sobel_pixel pixels width y x]) (replicate width (Some 0)) [1..<width - 1]
      else replicate width (Some 0))"
  unfolding applySobelFilter_def using assms by (subst rows_fold_nth) auto

lemma applySobelFilter_row_length:
  "y < height \<Longrightarrow> length (applySobelFilter pixels width height ! y) = width"
  by (simp add: applySobelFilter_row row_fold_length)

lemma applySobelFilter_nth:
  assumes "y < height" "x < width"
  shows "applySobelFilter pixels width height ! y ! x =
     (if 1 \<le> y \<and> y < height - 1 \<and> 1 \<le> x \<and> x < width - 1
      then sobel_pixel pixels width y x else Some 0)"
  using assms by (simp add: applySobelFilter_row row_fold_nth)

subsection \<open>Reads inside the frame\<close>

lemma pixel_index_bound:
  fixes x y width height :: nat
  assumes "x < width" "y < height"
  shows "(y * width + x) * 4 + 3 < width * height * 4"
proof -
  have "y * width + x < (y + 1) * width" using assms by (simp add: add_mult_distrib)
  also have "\<dots> \<le> height * width" using assms by (intro mult_le_mono1) simp
  finally show ?thesis by (simp add: mult.commute)
qed

lemma px_in_range: "k < length pixels \<Longrightarrow> px pixels (int k) = Some (real (unat (pixels ! k)))"
  by (simp add: px_def)

lemma luma_in_range:
  assumes "k + 2 < length pixels"
  shows "luma pixels (int k) =
     Some (0.299 * real (unat (pixels ! k)) + 0.587 * real (unat (pixels ! (k + 1)))
           + 0.114 * real (unat (pixels ! (k + 2))))"
proof -
  have e: "int k + 1 = int (k + 1)" "int k + 2 = int (k + 2)" by simp_all
  have "px pixels (int k) = Some (real (unat (pixels ! k)))"
    "px pixels (int (k + 1)) = Some (real (unat (pixels ! (k + 1))))"
    "px pixels (int (k + 2)) = Some (real (unat (pixels ! (k + 2))))"
    using assms by (simp_all only: px_in_range)
  then show ?thesis
    unfolding luma_def e by (simp add: nadd_def nmul_def lift2_def)
qed

lemma luma_in_frame:
  assumes "x < width" "y < height" "length pixels = width * height * 4"
  shows "luma pixels ((int y * int width + int x) * 4) = Some (spec_luma pixels width x y)"
proof -
  have eq: "(int y * int width + int x) * 4 = int ((y * width + x) * 4)" by simp
  have b: "(y * width + x) * 4 + 2 < length pixels"
    using pixel_index_bound [OF assms(1,2)] assms(3) by simp
  show ?thesis
    unfolding eq spec_luma_def by (rule luma_in_range [OF b])
qed

lemma sobel_step_in_frame:
  assumes "0 \<le> int y + i" "0 \<le> int x + j" "nat (int x + j) < width" "nat (int y + i) < height"
    "length pixels = width * height * 4"
  shows "sobel_step pixels width y x (Some a, Some b) (i, j) =
     (Some (a + spec_luma pixels width (nat (int x + j)) (nat (int y + i)) * (gx ! nat (i + 1) ! nat (j + 1))),
      Some (b + spec_luma pixels width (nat (int x + j)) (nat (int y + i)) * (gy ! nat (i + 1) ! nat (j + 1))))"
proof -
  have "(int y + i) * int width + (int x + j) =
        int (nat (int y + i)) * int width + int (nat (int x + j))"
    using assms(1,2) by simp
  then have "luma pixels (((int y + i) * int width + (int x + j)) * 4) =
      Some (spec_luma pixels width (nat (int x + j)) (nat (int y + i)))"
    using luma_in_frame [OF assms(3,4,5)] by simp
  then show ?thesis
    by (simp add: sobel_step_def nadd_def nmul_def lift2_def)
qed

lemma sobel_sums_in_frame:
  assumes "1 \<le> x" "x < width - 1" "1 \<le> y" "y < height - 1" "length pixels = width * height * 4"
  shows "sobel_sums pixels width y x =
     (Some (spec_conv gx pixels width x y), Some (spec_conv gy pixels width x y))"
proof -
  have L: "\<And>i j a b. i \<in> {-1, 0, 1} \<Longrightarrow> j \<in> {-1, 0, 1} \<Longrightarrow>
     sobel_step pixels width y x (Some a, Some b) (i, j) =
     (Some (a + spec_luma pixels width (nat (int x + j)) (nat (int y + i)) * (gx ! nat (i + 1) ! nat (j + 1))),
      Some (b + spec_luma pixels width (nat (int x + j)) (nat (int y + i)) * (gy ! nat (i + 1) ! nat (j + 1))))"
    using assms by (intro sobel_step_in_frame [where height = height]) auto
  have n: "nat (int x - 1) = x - Suc 0" "nat (int y - 1) = y - Suc 0"
    by auto
  show ?thesis
    unfolding sobel_sums_def
    apply (simp only: List.product.simps list.map append.simps concat.simps foldl.simps)
    apply (simp only: L insertI1 insertI2)
    apply (simp add: spec_conv_def gx_def gy_def eval_nat_numeral nat_add_distrib n)
    done
qed

lemma sobel_pixel_in_frame:
  assumes "1 \<le> x" "x < width - 1" "1 \<le> y" "y < height - 1" "length pixels = width * height * 4"
  shows "sobel_pixel pixels width y x = Some (spec_magnitude pixels width x y)"
  unfolding sobel_pixel_def sobel_sums_in_frame [OF assms]
  by (simp add: nsqrt_def nadd_def nmul_def lift2_def spec_magnitude_def power2_eq_square not_less)

subsection \<open>The edge map of a frame\<close>

lemma scenario_literal: "scenario = 
  [128,128,128,255, 128,128,128,255, 128,128,128,255, 128,128,128,255,
   128,128,128,255, 128,128,128,255, 128,128,128,255, 128,128,128,255,
   128,128,128,255, 128,128,128,255, 255,255,255,255, 128,128,128,255,
   128,128,128,255, 128,128,128,255, 128,128,128,255, 128,128,128,255]"
  by code_simp

lemma scenario_length: "length scenario = 64" by code_simp

lemma scenario_conv_gx_11: "spec_conv gx scenario 4 1 1 = 127" by code_simp
lemma scenario_conv_gy_11: "spec_conv gy scenario 4 1 1 = 127" by code_simp

text \<open>
  Claim C4. For every frame (buffer length = width * height * 4, width and height
  positive) the edge map returned by \<open>applySobelFilter\<close> has the dimensions of the
  frame: \<open>height\<close> rows of \<open>width\<close> values. Every border pixel (row 0, last row,
  column 0, last column) has the value 0, and every interior pixel
  (1 \<le> x < width - 1, 1 \<le> y < height - 1) has the value sqrt (sumX * sumX + sumY * sumY), where
  sumX and sumY are the convolutions of the lumas of the 3x3 neighbourhood with
  \<open>gx\<close> and \<open>gy\<close>.
\<close>

theorem applySobelFilter_edge_map:
  assumes "frame_inv pixels width height"
  shows "length (applySobelFilter pixels width height) = height
    \<and> (\<forall>y<height. length (applySobelFilter pixels width height ! y) = width)
    \<and> (\<forall>y<height. \<forall>x<width. y = 0 \<or> y = height - 1 \<or> x = 0 \<or> x = width - 1 \<longrightarrow>
          applySobelFilter pixels width height ! y ! x = Some 0)
    \<and> (\<forall>y x. 1 \<le> x \<and> x < width - 1 \<and> 1 \<le> y \<and> y < height - 1 \<longrightarrow>
          applySobelFilter pixels width height ! y ! x = Some (spec_magnitude pixels width x y))"
proof (intro conjI allI impI)
  show "length (applySobelFilter pixels width height) = height"
    by (rule applySobelFilter_length)
next
  fix y assume "y < height"
  then show "length (applySobelFilter pixels width height ! y) = width"
    by (rule applySobelFilter_row_length)
next
  fix y x assume "y < height" "x < width" "y = 0 \<or> y = height - 1 \<or> x = 0 \<or> x = width - 1"
  then show "applySobelFilter pixels width height ! y ! x = Some 0"
    by (auto simp: applySobelFilter_nth)
next
  fix y x assume i: "1 \<le> x \<and> x < width - 1 \<and> 1 \<le> y \<and> y < height - 1"
  then have "y < height" "x < width" by auto
  then have "applySobelFilter pixels width height ! y ! x = sobel_pixel pixels width y x"
    using i by (simp add: applySobelFilter_nth)
  also have "\<dots> = Some (spec_magnitude pixels width x y)"
    using i assms by (intro sobel_pixel_in_frame) (auto simp: frame_inv_def)
  finally show "applySobelFilter pixels width height ! y ! x = Some (spec_magnitude pixels width x y)" .
qed

theorem applySobelFilter_edge_map_witness:
  "frame_inv scenario 4 4
   \<and> length (applySobelFilter scenario 4 4) = 4
   \<and> length (applySobelFilter scenario 4 4 ! 3) = 4
   \<and> applySobelFilter scenario 4 4 ! 0 ! 2 = Some 0
   \<and> applySobelFilter scenario 4 4 ! 1 ! 3 = Some 0
   \<and> applySobelFilter scenario 4 4 ! 1 ! 1 = Some (sqrt 32258)
   \<and> applySobelFilter scenario 4 4 ! 2 ! 2 = Some 0"
proof -
  have inv: "frame_inv scenario 4 4" by (simp add: frame_inv_def scenario_length)
  have m: "spec_magnitude scenario 4 1 1 = sqrt 32258" 
    unfolding spec_magnitude_def scenario_conv_gx_11 scenario_conv_gy_11 by simp
  have "spec_conv gx scenario 4 2 2 = 0" "spec_conv gy scenario 4 2 2 = 0" by code_simp+
  then have m2: "spec_magnitude scenario 4 2 2 = 0" by (simp add: spec_magnitude_def)
  note t = applySobelFilter_edge_map [OF inv]
  note border = t [THEN conjunct2, THEN conjunct2, THEN conjunct1, rule_format]
  note interior = t [THEN conjunct2, THEN conjunct2, THEN conjunct2, rule_format]
  have b1: "applySobelFilter scenario 4 4 ! 0 ! 2 = Some 0" by (rule border) simp_all
  have b2: "applySobelFilter scenario 4 4 ! 1 ! 3 = Some 0" by (rule border) simp_all
  have i1: "applySobelFilter scenario 4 4 ! 1 ! 1 = Some (sqrt 32258)"
    unfolding m [symmetric] by (rule interior) simp
  have i2: "applySobelFilter scenario 4 4 ! 2 ! 2 = Some 0"
    unfolding m2 [symmetric] by (rule interior) simp
  have l: "length (applySobelFilter scenario 4 4 ! 3) = 4"
    by (rule t [THEN conjunct2, THEN conjunct1, rule_format]) simp
  show ?thesis by (intro conjI inv b1 b2 i1 i2 l t [THEN conjunct1])
qed

section \<open>Stores into the position array\<close>

lemma setXYZ_length: "length (setXYZ positions i a b c) = length positions"
  by (simp add: setXYZ_def)

lemma setXYZ_nth:
  assumes k: "k < length positions"
  shows "setXYZ positions i a b c ! k =
     (if k div 3 = i then [a, b, c] ! (k mod 3) else positions ! k)"
proof (cases "k div 3 = i")
  case False
  then have "k \<noteq> i * 3" "k \<noteq> i * 3 + 1" "k \<noteq> i * 3 + 2" by auto
  with False k show ?thesis by (simp add: setXYZ_def nth_list_update)
next
  case True
  have "k mod 3 < 3" by simp
  then consider "k mod 3 = 0" | "k mod 3 = 1" | "k mod 3 = 2" by linarith
  then show ?thesis
  proof cases
    case 1
    with True have "k = i * 3" by presburger
    with k show ?thesis by (simp add: setXYZ_def nth_list_update)
  next
    case 2
    with True have e: "k = i * 3 + 1" by presburger
    have "(i * 3 + 1) div 3 = i" "(i * 3 + 1) mod 3 = 1" by presburger+
    with k show ?thesis unfolding e by (simp add: setXYZ_def nth_list_update)
  next
    case 3
    with True have e: "k = i * 3 + 2" by presburger
    have "(i * 3 + 2) div 3 = i" "(i * 3 + 2) mod 3 = 2" by presburger+
    with k show ?thesis unfolding e by (simp add: setXYZ_def nth_list_update)
  qed
qed

lemma write_point_length: "length (write_point ranked w h positions i) = length positions"
  by (simp add: write_point_def Let_def setXYZ_length)

lemma write_point_nth:
  "k < length positions \<Longrightarrow>
   write_point ranked w h positions i ! k =
     (if k div 3 = i then written ranked w h k else positions ! k)"
  by (simp add: write_point_def written_def Let_def setXYZ_nth)

lemma write_fold_length:
  "length (foldl (write_point ranked w h) positions is) = length positions"
  by (induction "is" arbitrary: positions) (simp_all add: write_point_length)

lemma write_fold_nth:
  "k < length positions \<Longrightarrow>
   foldl (write_point ranked w h) positions [0..<n] ! k =
     (if k < n * 3 then written ranked w h k else positions ! k)"
proof (induction n)
  case 0
  then show ?case by simp
next
  case (Suc n)
  have len: "k < length (foldl (write_point ranked w h) positions [0..<n])"
    using Suc.prems by (simp add: write_fold_length)
  have d: "k div 3 = n \<longleftrightarrow> n * 3 \<le> k \<and> k < Suc n * 3" by auto
  have "foldl (write_point ranked w h) positions [0..<Suc n] ! k =
     write_point ranked w h (foldl (write_point ranked w h) positions [0..<n]) n ! k"
    by simp
  also have "\<dots> = (if k div 3 = n then written ranked w h k
                   else foldl (write_point ranked w h) positions [0..<n] ! k)"
    by (rule write_point_nth [OF len])
  also have "\<dots> = (if k < Suc n * 3 then written ranked w h k else positions ! k)"
    using Suc.IH [OF Suc.prems] d by auto
  finally show ?case .
qed

lemma updateParticleSystem_length:
  "length (updateParticleSystem brightPoints w h positions) = length positions"
  by (simp add: updateParticleSystem_def Let_def write_fold_length)

lemma updateParticleSystem_nth:
  "k < length positions \<Longrightarrow>
   updateParticleSystem brightPoints w h positions ! k =
     (if k < length (rank brightPoints) * 3 then written (rank brightPoints) w h k
      else positions ! k)"
  by (simp add: updateParticleSystem_def Let_def write_fold_nth)

lemma rank_length: "length (rank brightPoints) \<le> maxBrightPoints"
  by (simp add: rank_def Let_def)

section \<open>Stepping the loop of findBrightPoints\<close>

lemma loop_error:
  "i < length pixels \<Longrightarrow> scan_pixel pixels width edges i = Inl e \<Longrightarrow>
   findBrightPoints_loop pixels width edges i acc = Inl e"
  by (subst findBrightPoints_loop.simps) simp

lemma loop_push:
  "i < length pixels \<Longrightarrow> scan_pixel pixels width edges i = Inr (Some p) \<Longrightarrow>
   findBrightPoints_loop pixels width edges i acc =
   findBrightPoints_loop pixels width edges (i + 4) (acc @ [p])"
  by (subst findBrightPoints_loop.simps) simp

lemma loop_none:
  "i < length pixels \<Longrightarrow> scan_pixel pixels width edges i = Inr None \<Longrightarrow>
   findBrightPoints_loop pixels width edges i acc =
   findBrightPoints_loop pixels width edges (i + 4) acc"
  by (subst findBrightPoints_loop.simps) simp

lemma loop_end:
  "length pixels \<le> i \<Longrightarrow> findBrightPoints_loop pixels width edges i acc = Inr acc"
  by (subst findBrightPoints_loop.simps) simp

lemma sqrt_gt: "0 \<le> t \<Longrightarrow> t * t < s \<Longrightarrow> ngt (Some (sqrt s)) t"
  unfolding ngt_def by (simp add: real_less_rsqrt power2_eq_square)

section \<open>The extractor on concrete frames\<close>

lemma offdiag_literal: "offdiag =
  [0,0,0,255, 0,0,0,255, 0,0,0,255, 0,0,0,255,
   0,0,0,255, 0,0,0,255, 255,255,255,255, 0,0,0,255,
   0,0,0,255, 0,0,0,255, 0,0,0,255, 0,0,0,255,
   0,0,0,255, 0,0,0,255, 0,0,0,255, 0,0,0,255]"
  by code_simp

lemma offdiag_loop:
  assumes "edge_at E 2 1 = Inr e" "ngt e edgeThreshold"
  shows "findBrightPoints_loop offdiag 4 E 0 [] =
     Inr [\<lparr>pt_x = 2, pt_y = 1, brightness = 255, color = \<lparr>col_r = 1, col_g = 1, col_b = 1\<rparr>\<rparr>]"
  unfolding offdiag_literal using assms
  by (simp add: findBrightPoints_loop.simps scan_pixel_def luma_def px_def nadd_def nmul_def
      lift2_def brightnessThreshold_def)

lemma offdiag_inv: "frame_inv offdiag 4 4"
  unfolding frame_inv_def by code_simp

lemma offdiag_edge_12: "applySobelFilter offdiag 4 4 ! 1 ! 2 = Some 0"
proof -
  have "sobel_sums offdiag 4 1 2 = (Some 0, Some 0)" by code_simp
  then have "sobel_pixel offdiag 4 1 2 = Some 0"
    by (simp add: sobel_pixel_def nsqrt_def nadd_def nmul_def lift2_def)
  then show ?thesis by (simp add: applySobelFilter_nth)
qed

lemma offdiag_edge_21: "applySobelFilter offdiag 4 4 ! 2 ! 1 = Some (sqrt 130050)"
proof -
  have "sobel_sums offdiag 4 2 1 = (Some 255, Some (- 255))" by code_simp
  then have "sobel_pixel offdiag 4 2 1 = Some (sqrt 130050)"
    by (simp add: sobel_pixel_def nsqrt_def nadd_def nmul_def lift2_def)
  then show ?thesis by (simp add: applySobelFilter_nth)
qed

lemma offdiag_points:
  "findBrightPoints offdiag 4 4 =
     Inr [\<lparr>pt_x = 2, pt_y = 1, brightness = 255, color = \<lparr>col_r = 1, col_g = 1, col_b = 1\<rparr>\<rparr>]"
proof -
  have e: "edge_at (applySobelFilter offdiag 4 4) 2 1 = Inr (Some (sqrt 130050))"
    using offdiag_edge_21
    by (simp add: edge_at_def applySobelFilter_length applySobelFilter_row_length)
  have g: "ngt (Some (sqrt 130050)) edgeThreshold"
    by (rule sqrt_gt) (simp_all add: edgeThreshold_def)
  show ?thesis unfolding findBrightPoints_def by (rule offdiag_loop [OF e g])
qed

text \<open>
  Claim C1 (the code departs from it). On the 4x4 frame \<open>offdiag\<close>, which satisfies the
  frame invariant, the pixel (2,1) has luma 255 and the edge map has the value 0 at
  that pixel (row 1, column 2), so the claim has no point emitted for it. The code
  emits the point: \<open>findBrightPoints\<close> reads \<open>edges[x][y]\<close>, row 2 and column 1 of
  the map that \<open>applySobelFilter\<close> filled as \<open>gradients[y][x]\<close>, which is the value of
  the pixel (1,2).
\<close>

theorem findBrightPoints_reads_transposed_edge:
  "frame_inv offdiag 4 4
   \<and> luma offdiag ((1 * 4 + 2) * 4) = Some 255
   \<and> applySobelFilter offdiag 4 4 ! 1 ! 2 = Some 0
   \<and> applySobelFilter offdiag 4 4 ! 2 ! 1 = Some (sqrt 130050)
   \<and> findBrightPoints offdiag 4 4 =
       Inr [\<lparr>pt_x = 2, pt_y = 1, brightness = 255, color = \<lparr>col_r = 1, col_g = 1, col_b = 1\<rparr>\<rparr>]"
proof -
  have "luma offdiag ((1 * 4 + 2) * 4) = Some 255" by code_simp
  then show ?thesis
    by (intro conjI offdiag_inv offdiag_edge_12 offdiag_edge_21 offdiag_points)
qed

lemma wide_literal: "wide = [0,0,0,255, 255,255,255,255]"
  by code_simp

lemma wide_found: "findBrightPoints wide 2 1 = Inl TypeError"
proof -
  have l0: "luma wide 0 = Some 0" and l4: "luma wide 4 = Some 255" by code_simp+
  have len: "length wide = 8" by code_simp
  have s0: "scan_pixel wide 2 (applySobelFilter wide 2 1) 0 = Inr None"
    using l0 by (simp add: scan_pixel_def brightnessThreshold_def)
  have s4: "scan_pixel wide 2 (applySobelFilter wide 2 1) 4 = Inl TypeError"
    using l4 by (simp add: scan_pixel_def brightnessThreshold_def edge_at_def applySobelFilter_length)
  have "findBrightPoints wide 2 1 = findBrightPoints_loop wide 2 (applySobelFilter wide 2 1) (0 + 4) []"
    unfolding findBrightPoints_def by (rule loop_none [OF _ s0]) (simp add: len)
  also have "\<dots> = Inl TypeError"
    unfolding add_0 by (rule loop_error [OF _ s4]) (simp add: len)
  finally show ?thesis .
qed

text \<open>
  Claim C3 (the code departs from it). The frame \<open>wide\<close> of width 2 and height 1
  satisfies the frame invariant, and \<open>findBrightPoints\<close> raises a TypeError on it: its
  white pixel is in column 1, and \<open>edges[1]\<close> is \<open>undefined\<close> in an edge map of one row.
\<close>

theorem findBrightPoints_wide_TypeError:
  "frame_inv wide 2 1 \<and> findBrightPoints wide 2 1 = Inl TypeError"
proof -
  have "length wide = 8" by code_simp
  then show ?thesis using wide_found by (simp add: frame_inv_def)
qed

lemma scenario_loop:
  assumes "edge_at E 2 2 = Inr (Some 0)"
  shows "findBrightPoints_loop scenario 4 E 0 [] = Inr []"
  unfolding scenario_literal using assms
  by (simp add: findBrightPoints_loop.simps scan_pixel_def luma_def px_def nadd_def nmul_def
      lift2_def brightnessThreshold_def edgeThreshold_def ngt_def)

lemma scenario_edge_22: "applySobelFilter scenario 4 4 ! 2 ! 2 = Some 0"
proof -
  have "sobel_sums scenario 4 2 2 = (Some 0, Some 0)" by code_simp
  then have "sobel_pixel scenario 4 2 2 = Some 0"
    by (simp add: sobel_pixel_def nsqrt_def nadd_def nmul_def lift2_def)
  then show ?thesis by (simp add: applySobelFilter_nth)
qed

lemma scenario_points: "findBrightPoints scenario 4 4 = Inr []"
proof -
  have e: "edge_at (applySobelFilter scenario 4 4) 2 2 = Inr (Some 0)"
    using scenario_edge_22
    by (simp add: edge_at_def applySobelFilter_length applySobelFilter_row_length)
  show ?thesis unfolding findBrightPoints_def by (rule scenario_loop [OF e])
qed

lemma rank_Nil: "rank [] = []"
  by (simp add: rank_def)

lemma updateParticleSystem_Nil: "updateParticleSystem [] w h positions = positions"
  by (simp add: updateParticleSystem_def rank_Nil)

lemma scenario_bright_pixels:
  "map (\<lambda>k. ngt (luma scenario (int (k * 4))) brightnessThreshold) [0..<16] =
     [False, False, False, False,
      False, False, False, False,
      False, False, True, False,
      False, False, False, False]"
  by code_simp

text \<open>
  Claim C2, as amended. On the 4x4 frame \<open>scenario\<close> (mid-gray, pixel (2,2) white), with
  the thresholds 200 and 0.2 and a capacity of 5, the pipeline produces no BrightPoint
  and the pass leaves the particle buffer as it was: of the sixteen pixels, taken in
  row-major order (pixel (x, y) is number y * 4 + x), only pixel (2,2) has a luma
  greater than \<open>brightnessThreshold\<close>, and the edge-map value of that pixel is not
  greater than \<open>edgeThreshold\<close>, since its eight neighbours have the same luma and
  the centre of both kernels weighs 0. Projecting pixel (2,2) with width = height = 4
  gives the normalized coordinates x = 0 and y = 0.

  The statement is in terms of the comparisons with the two thresholds, not of the
  values compared: in doubles the luma of a gray pixel and the edge value of pixel
  (2,2) carry a rounding error (the latter is of the order of 1e-14 rather than 0),
  which leaves every one of these comparisons as it is here.
\<close>

theorem scenario_no_bright_point:
  "map (\<lambda>k. ngt (luma scenario (int (k * 4))) brightnessThreshold) [0..<16] =
     [False, False, False, False,
      False, False, False, False,
      False, False, True, False,
      False, False, False, False]
   \<and> \<not> ngt (applySobelFilter scenario 4 4 ! 2 ! 2) edgeThreshold
   \<and> findBrightPoints scenario 4 4 = Inr []
   \<and> process_frame scenario 4 4 positions = Inr positions
   \<and> vx (convertToWorldPosition 2 2 4 4) = Some 0
   \<and> vy (convertToWorldPosition 2 2 4 4) = Some 0"
proof -
  have e: "\<not> ngt (applySobelFilter scenario 4 4 ! 2 ! 2) edgeThreshold"
    unfolding scenario_edge_22 by (simp add: ngt_def edgeThreshold_def)
  have p: "process_frame scenario 4 4 positions = Inr positions"
    by (simp add: process_frame_def scenario_points updateParticleSystem_Nil)
  have c: "convertToWorldPosition 2 2 4 4 = \<lparr>vx = Some 0, vy = Some 0, vz = Some 0\<rparr>"
    by (simp add: convertToWorldPosition_def nadd_def nsub_def nmul_def ndiv_def nneg_def lift2_def)
  show ?thesis
    by (intro conjI scenario_bright_pixels e scenario_points p) (simp_all add: c)
qed

text \<open>
  The claim C2 as it was stated, exactly one BrightPoint, at pixel (2,2), fails on the
  scenario frame: the list returned is empty, not the one point of that pixel.
\<close>

theorem scenario_not_one_point:
  "findBrightPoints scenario 4 4 = Inr []
   \<and> findBrightPoints scenario 4 4 \<noteq>
       Inr [\<lparr>pt_x = 2, pt_y = 2, brightness = 255, color = \<lparr>col_r = 1, col_g = 1, col_b = 1\<rparr>\<rparr>]"
  by (simp add: scenario_points)

section \<open>The ranker\<close>

lemma rank_take: "rank c = take maxBrightPoints (sort_key (\<lambda>p. - brightness p) c)"
  by (simp add: rank_def Let_def)

lemma sorted_take_drop:
  assumes "sorted (map f xs)" "p \<in> set (take n xs)" "q \<in> set (drop n xs)"
  shows "f p \<le> f q"
proof -
  have "sorted (map f (take n xs) @ map f (drop n xs))"
    using assms(1) by (simp flip: map_append)
  then show ?thesis using assms(2,3) by (auto simp: sorted_append)
qed

text \<open>
  Claim C5. For every candidate list, the ranker returns at most \<open>maxBrightPoints\<close>
  entries, in descending order of brightness, taken from the candidates; every
  returned entry is at least as bright as every candidate that is not returned; and
  a list of fewer than \<open>maxBrightPoints\<close> candidates is returned whole.
\<close>

theorem rank_top_descending:
  "length (rank c) \<le> maxBrightPoints
   \<and> sorted_wrt (\<lambda>p q. brightness q \<le> brightness p) (rank c)
   \<and> mset (rank c) \<subseteq># mset c
   \<and> (\<forall>p \<in> set (rank c). \<forall>q \<in># mset c - mset (rank c). brightness q \<le> brightness p)
   \<and> (length c < maxBrightPoints \<longrightarrow> mset (rank c) = mset c)"
proof -
  let ?s = "sort_key (\<lambda>p. - brightness p) c"
  have srt: "sorted (map (\<lambda>p. - brightness p) ?s)" by simp
  have ms: "mset c = mset (take maxBrightPoints ?s) + mset (drop maxBrightPoints ?s)"
    by (metis append_take_drop_id mset_append mset_sort)
  have rest: "mset c - mset (rank c) = mset (drop maxBrightPoints ?s)"
    unfolding rank_take by (subst ms) simp
  have "sorted (map (\<lambda>p. - brightness p) (rank c))"
    unfolding rank_take using srt by (simp flip: take_map)
  then have desc: "sorted_wrt (\<lambda>p q. brightness q \<le> brightness p) (rank c)"
    by (simp add: sorted_map)
  have top: "\<forall>p \<in> set (rank c). \<forall>q \<in># mset c - mset (rank c). brightness q \<le> brightness p"
  proof (intro ballI)
    fix p q
    assume "p \<in> set (rank c)" and "q \<in># mset c - mset (rank c)"
    then have "p \<in> set (take maxBrightPoints ?s)" and "q \<in> set (drop maxBrightPoints ?s)"
      by (simp_all add: rest) (simp add: rank_take)
    from sorted_take_drop [OF srt this] show "brightness q \<le> brightness p" by simp
  qed
  have sub: "mset (rank c) \<subseteq># mset c"
    unfolding rank_take by (subst ms) simp
  have all: "length c < maxBrightPoints \<longrightarrow> mset (rank c) = mset c"
    by (simp add: rank_take)
  show ?thesis
    using desc top sub all by (simp add: rank_take)
qed

lemma brightness_pt: "brightness (pt b) = b" by (simp add: pt_def)

lemma pt_eq: "pt a = pt b \<longleftrightarrow> a = b" by (simp add: pt_def)

lemma rank_candidates7: "rank candidates7 = [pt 250, pt 240, pt 230, pt 220, pt 210]"
  by (simp add: candidates7_def rank_def maxBrightPoints_def brightness_pt)

lemma rank_candidates2: "rank candidates2 = [pt 250, pt 210]"
  by (simp add: candidates2_def rank_def maxBrightPoints_def brightness_pt)

theorem rank_top_descending_witness:
  "length (rank candidates7) \<le> maxBrightPoints
   \<and> rank candidates7 = [pt 250, pt 240, pt 230, pt 220, pt 210]
   \<and> sorted_wrt (\<lambda>p q. brightness q \<le> brightness p) (rank candidates7)
   \<and> pt 210 \<in> set (rank candidates7)
   \<and> pt 205 \<in># mset candidates7 - mset (rank candidates7)
   \<and> brightness (pt 205) \<le> brightness (pt 210)
   \<and> length candidates2 < maxBrightPoints
   \<and> mset (rank candidates2) = mset candidates2"
proof -
  note t7 = rank_top_descending [of candidates7]
  note t2 = rank_top_descending [of candidates2]
  have in7: "pt 210 \<in> set (rank candidates7)" by (simp add: rank_candidates7)
  have out7: "pt 205 \<in># mset candidates7 - mset (rank candidates7)"
    unfolding rank_candidates7 by (simp add: candidates7_def pt_eq)
  have top: "brightness (pt 205) \<le> brightness (pt 210)"
    using t7 [THEN conjunct2, THEN conjunct2, THEN conjunct2, THEN conjunct1, rule_format, OF in7 out7] .
  have len2: "length candidates2 < maxBrightPoints"
    by (simp add: candidates2_def maxBrightPoints_def)
  have all2: "mset (rank candidates2) = mset candidates2"
    using t2 len2 by blast
  show ?thesis
    by (intro conjI t7 [THEN conjunct1] rank_candidates7
        t7 [THEN conjunct2, THEN conjunct1] in7 out7 top len2 all2)
qed

section \<open>The projector and the particle buffer\<close>

lemma convertToWorldPosition_finite:
  assumes "0 < width" "0 < height"
  shows "convertToWorldPosition x y width height =
     \<lparr>vx = Some (real x / real width * 2 - 1),
      vy = Some (- (real y / real height) * 2 + 1),
      vz = Some 0\<rparr>"
  using assms
  by (simp add: convertToWorldPosition_def nadd_def nsub_def nmul_def ndiv_def nneg_def lift2_def)

lemma written_finite:
  assumes "0 < width" "0 < height"
  shows "written ranked width height (i * 3) = Some (real (pt_x (ranked ! i)) / real width * 2 - 1)"
    and "written ranked width height (i * 3 + 1) = Some (- (real (pt_y (ranked ! i)) / real height) * 2 + 1)"
    and "written ranked width height (i * 3 + 2) = Some (0 - projectionDistance)"
proof -
  have d: "(i * 3 + 1) div 3 = i" "(i * 3 + 1) mod 3 = 1" "(i * 3 + 2) div 3 = i" "(i * 3 + 2) mod 3 = 2"
    by presburger+
  show "written ranked width height (i * 3) = Some (real (pt_x (ranked ! i)) / real width * 2 - 1)"
    by (simp add: written_def Let_def convertToWorldPosition_finite [OF assms])
  show "written ranked width height (i * 3 + 1) = Some (- (real (pt_y (ranked ! i)) / real height) * 2 + 1)"
    unfolding written_def Let_def d convertToWorldPosition_finite [OF assms] by simp
  show "written ranked width height (i * 3 + 2) = Some (0 - projectionDistance)"
    unfolding written_def Let_def d convertToWorldPosition_finite [OF assms]
    by (simp add: nsub_def lift2_def)
qed

lemma normalized_bounds:
  fixes x width :: nat
  assumes "x < width"
  shows "- 1 \<le> real x / real width * 2 - 1" "real x / real width * 2 - 1 \<le> 1"
    "- 1 \<le> - (real x / real width) * 2 + 1" "- (real x / real width) * 2 + 1 \<le> 1"
proof -
  define r where "r = real x / real width"
  have "0 \<le> r" unfolding r_def by simp
  moreover have "r \<le> 1" unfolding r_def using assms by (simp add: divide_le_eq)
  ultimately have "- 1 \<le> r * 2 - 1" "r * 2 - 1 \<le> 1" "- 1 \<le> - r * 2 + 1" "- r * 2 + 1 \<le> 1"
    by simp_all
  then show "- 1 \<le> real x / real width * 2 - 1" "real x / real width * 2 - 1 \<le> 1"
    "- 1 \<le> - (real x / real width) * 2 + 1" "- (real x / real width) * 2 + 1 \<le> 1"
    unfolding r_def by simp_all
qed

lemma rank_single: "rank [p] = [p]"
  by (simp add: rank_def maxBrightPoints_def)

lemma initParticleSystem_length: "length initParticleSystem = 15"
  by (simp add: initParticleSystem_def maxBrightPoints_def)

text \<open>
  Claim C6. For every pixel (x, y) and every frame with width > 0 and height > 0, the
  projector returns exactly (x / width * 2 - 1, - (y / height) * 2 + 1, 0); the driver
  stores the projected x and y of the i-th ranked point, and its z less the projection
  distance 0.1, in entry i of the particle buffer; and for x < width and y < height
  the returned x and y lie in [-1, 1].
\<close>

theorem projector_and_depth_offset:
  assumes "0 < width" "0 < height"
  shows "convertToWorldPosition x y width height =
       \<lparr>vx = Some (real x / real width * 2 - 1),
        vy = Some (- (real y / real height) * 2 + 1),
        vz = Some 0\<rparr>
   \<and> (\<forall>i. i < length (rank brightPoints) \<and> i * 3 + 2 < length positions \<longrightarrow>
        updateParticleSystem brightPoints width height positions ! (i * 3) =
          vx (convertToWorldPosition (pt_x (rank brightPoints ! i)) (pt_y (rank brightPoints ! i)) width height)
        \<and> updateParticleSystem brightPoints width height positions ! (i * 3 + 1) =
          vy (convertToWorldPosition (pt_x (rank brightPoints ! i)) (pt_y (rank brightPoints ! i)) width height)
        \<and> updateParticleSystem brightPoints width height positions ! (i * 3 + 2) =
          Some (0 - projectionDistance))
   \<and> (x < width \<and> y < height \<longrightarrow>
        - 1 \<le> real x / real width * 2 - 1 \<and> real x / real width * 2 - 1 \<le> 1
        \<and> - 1 \<le> - (real y / real height) * 2 + 1 \<and> - (real y / real height) * 2 + 1 \<le> 1)"
proof (intro conjI allI impI)
  show "convertToWorldPosition x y width height =
       \<lparr>vx = Some (real x / real width * 2 - 1),
        vy = Some (- (real y / real height) * 2 + 1),
        vz = Some 0\<rparr>"
    by (rule convertToWorldPosition_finite [OF assms])
next
  fix i
  assume i: "i < length (rank brightPoints) \<and> i * 3 + 2 < length positions"
  then have lt: "i * 3 < length (rank brightPoints) * 3" "i * 3 + 1 < length (rank brightPoints) * 3"
    "i * 3 + 2 < length (rank brightPoints) * 3" by auto
  from i have b: "i * 3 < length positions" "i * 3 + 1 < length positions" "i * 3 + 2 < length positions"
    by auto
  show "updateParticleSystem brightPoints width height positions ! (i * 3) =
      vx (convertToWorldPosition (pt_x (rank brightPoints ! i)) (pt_y (rank brightPoints ! i)) width height)"
    unfolding updateParticleSystem_nth [OF b(1)]
    using lt(1) written_finite(1) [OF assms, of "rank brightPoints" i]
    by (simp add: convertToWorldPosition_finite [OF assms])
  show "updateParticleSystem brightPoints width height positions ! (i * 3 + 1) =
      vy (convertToWorldPosition (pt_x (rank brightPoints ! i)) (pt_y (rank brightPoints ! i)) width height)"
    unfolding updateParticleSystem_nth [OF b(2)]
    using lt(2) written_finite(2) [OF assms, of "rank brightPoints" i]
    by (simp add: convertToWorldPosition_finite [OF assms])
  show "updateParticleSystem brightPoints width height positions ! (i * 3 + 2) =
      Some (0 - projectionDistance)"
    unfolding updateParticleSystem_nth [OF b(3)]
    using lt(3) written_finite(3) [OF assms, of "rank brightPoints" i]
    by simp
next
  assume "x < width \<and> y < height"
  then show "- 1 \<le> real x / real width * 2 - 1" "real x / real width * 2 - 1 \<le> 1"
    "- 1 \<le> - (real y / real height) * 2 + 1" "- (real y / real height) * 2 + 1 \<le> 1"
    using normalized_bounds by blast+
qed


theorem projector_and_depth_offset_witness:
  "(0::nat) < 4
   \<and> convertToWorldPosition 2 1 4 4 = \<lparr>vx = Some 0, vy = Some (1 / 2), vz = Some 0\<rparr>
   \<and> updateParticleSystem [offdiag_point] 4 4 initParticleSystem ! 0 = Some 0
   \<and> updateParticleSystem [offdiag_point] 4 4 initParticleSystem ! 1 = Some (1 / 2)
   \<and> updateParticleSystem [offdiag_point] 4 4 initParticleSystem ! 2 = Some (- (1 / 10))
   \<and> - 1 \<le> real 2 / real 4 * 2 - 1 \<and> real 2 / real 4 * 2 - 1 \<le> 1
   \<and> - 1 \<le> - (real 1 / real 4) * 2 + 1 \<and> - (real 1 / real 4) * 2 + 1 \<le> 1"
proof -
  have pos: "(0::nat) < 4" by simp
  note t = projector_and_depth_offset [OF pos pos, of 2 1 "[offdiag_point]" initParticleSystem]
  have c: "convertToWorldPosition 2 1 4 4 = \<lparr>vx = Some 0, vy = Some (1 / 2), vz = Some 0\<rparr>"
    using t [THEN conjunct1] by simp
  have i: "0 < length (rank [offdiag_point]) \<and> 0 * 3 + 2 < length initParticleSystem"
    by (simp add: rank_single initParticleSystem_length)
  note w = t [THEN conjunct2, THEN conjunct1, rule_format, OF i]
  have w0: "updateParticleSystem [offdiag_point] 4 4 initParticleSystem ! 0 = Some 0"
    using w [THEN conjunct1] c by (simp add: rank_single offdiag_point_def)
  have w1: "updateParticleSystem [offdiag_point] 4 4 initParticleSystem ! 1 = Some (1 / 2)"
    using w [THEN conjunct2, THEN conjunct1] c by (simp add: rank_single offdiag_point_def)
  have w2: "updateParticleSystem [offdiag_point] 4 4 initParticleSystem ! 2 = Some (- (1 / 10))"
    using w [THEN conjunct2, THEN conjunct2] by (simp add: projectionDistance_def numeral_2_eq_2)
  have b: "- 1 \<le> real 2 / real 4 * 2 - 1 \<and> real 2 / real 4 * 2 - 1 \<le> 1
     \<and> - 1 \<le> - (real 1 / real 4) * 2 + 1 \<and> - (real 1 / real 4) * 2 + 1 \<le> 1"
    using t [THEN conjunct2, THEN conjunct2] by simp
  show ?thesis using pos c w0 w1 w2 b by simp
qed

section \<open>The order of the candidates\<close>

lemma scan_pixel_position:
  assumes "scan_pixel pixels width edges i = Inr (Some p)"
  shows "pt_y p * width + pt_x p = i div 4"
  using assms
  by (auto simp: scan_pixel_def Let_def split: option.splits if_splits sum.splits)

lemma loop_scan_order:
  assumes "findBrightPoints_loop pixels width edges i acc = Inr r"
    and "sorted_wrt (\<lambda>p q. pt_y p * width + pt_x p < pt_y q * width + pt_x q) acc"
    and "\<forall>p \<in> set acc. pt_y p * width + pt_x p < i div 4"
  shows "sorted_wrt (\<lambda>p q. pt_y p * width + pt_x p < pt_y q * width + pt_x q) r"
  using assms
proof (induction pixels width edges i acc rule: findBrightPoints_loop.induct)
  case (1 pixels width edges i brightPoints)
  show ?case
  proof (cases "i < length pixels")
    case False
    with "1.prems" show ?thesis by (simp add: loop_end)
  next
    case True
    have step: "\<And>n. n < i div 4 \<Longrightarrow> n < (i + 4) div 4" by linarith
    show ?thesis
    proof (cases "scan_pixel pixels width edges i")
      case (Inl e)
      with True "1.prems"(1) show ?thesis by (simp add: loop_error)
    next
      case (Inr res)
      show ?thesis
      proof (cases res)
        case None
        with Inr have s: "scan_pixel pixels width edges i = Inr None" by simp
        have "findBrightPoints_loop pixels width edges (i + 4) brightPoints = Inr r"
          using "1.prems"(1) loop_none [OF True s] by simp
        moreover have "\<forall>p \<in> set brightPoints. pt_y p * width + pt_x p < (i + 4) div 4"
          using "1.prems"(3) step by blast
        ultimately show ?thesis
          using "1.IH"(1) [OF True s refl] "1.prems"(2) by blast
      next
        case (Some p)
        with Inr have s: "scan_pixel pixels width edges i = Inr (Some p)" by simp
        have pos: "pt_y p * width + pt_x p = i div 4" by (rule scan_pixel_position [OF s])
        have run: "findBrightPoints_loop pixels width edges (i + 4) (brightPoints @ [p]) = Inr r"
          using "1.prems"(1) loop_push [OF True s] by simp
        have "i div 4 < (i + 4) div 4" by linarith
        then have below: "\<forall>q \<in> set (brightPoints @ [p]). pt_y q * width + pt_x q < (i + 4) div 4"
          using "1.prems"(3) step pos by auto
        have srt: "sorted_wrt (\<lambda>p q. pt_y p * width + pt_x p < pt_y q * width + pt_x q) (brightPoints @ [p])"
          using "1.prems"(2,3) pos by (simp add: sorted_wrt_append)
        show ?thesis
          using "1.IH"(2) [OF True s refl run srt below] .
      qed
    qed
  qed
qed


text \<open>
  Claim C10. The candidate list that \<open>findBrightPoints\<close> returns is in the order of
  the row-major scan: of any two points of the list, the earlier has the strictly
  smaller pixel index y * width + x.
\<close>

theorem findBrightPoints_scan_order:
  assumes "findBrightPoints pixels width height = Inr brightPoints"
  shows "sorted_wrt (\<lambda>p q. pt_y p * width + pt_x p < pt_y q * width + pt_x q) brightPoints"
  using assms unfolding findBrightPoints_def
  by (rule loop_scan_order) simp_all

lemma diag2_literal: "diag2 =
  [0,0,0,255, 0,0,0,255, 0,0,0,255, 0,0,0,255,
   0,0,0,255, 255,255,255,255, 0,0,0,255, 0,0,0,255,
   0,0,0,255, 0,0,0,255, 255,255,255,255, 0,0,0,255,
   0,0,0,255, 0,0,0,255, 0,0,0,255, 0,0,0,255]"
  by code_simp

lemma diag2_loop:
  assumes "edge_at E 1 1 = Inr e1" "ngt e1 edgeThreshold"
    and "edge_at E 2 2 = Inr e2" "ngt e2 edgeThreshold"
  shows "findBrightPoints_loop diag2 4 E 0 [] = Inr diag2_points"
  unfolding diag2_literal diag2_points_def using assms
  by (simp add: findBrightPoints_loop.simps scan_pixel_def luma_def px_def nadd_def nmul_def
      lift2_def brightnessThreshold_def)

lemma diag2_edge_11: "applySobelFilter diag2 4 4 ! 1 ! 1 = Some (sqrt 130050)"
proof -
  have "sobel_sums diag2 4 1 1 = (Some 255, Some 255)" by code_simp
  then have "sobel_pixel diag2 4 1 1 = Some (sqrt 130050)"
    by (simp add: sobel_pixel_def nsqrt_def nadd_def nmul_def lift2_def)
  then show ?thesis by (simp add: applySobelFilter_nth)
qed

lemma diag2_edge_22: "applySobelFilter diag2 4 4 ! 2 ! 2 = Some (sqrt 130050)"
proof -
  have "sobel_sums diag2 4 2 2 = (Some (- 255), Some (- 255))" by code_simp
  then have "sobel_pixel diag2 4 2 2 = Some (sqrt 130050)"
    by (simp add: sobel_pixel_def nsqrt_def nadd_def nmul_def lift2_def)
  then show ?thesis by (simp add: applySobelFilter_nth)
qed

lemma diag2_found: "findBrightPoints diag2 4 4 = Inr diag2_points"
proof -
  have e1: "edge_at (applySobelFilter diag2 4 4) 1 1 = Inr (Some (sqrt 130050))"
    using diag2_edge_11
    by (simp add: edge_at_def applySobelFilter_length applySobelFilter_row_length)
  have e2: "edge_at (applySobelFilter diag2 4 4) 2 2 = Inr (Some (sqrt 130050))"
    using diag2_edge_22
    by (simp add: edge_at_def applySobelFilter_length applySobelFilter_row_length)
  have g: "ngt (Some (sqrt 130050)) edgeThreshold"
    by (rule sqrt_gt) (simp_all add: edgeThreshold_def)
  show ?thesis unfolding findBrightPoints_def by (rule diag2_loop [OF e1 g e2 g])
qed

theorem findBrightPoints_scan_order_witness:
  "findBrightPoints diag2 4 4 = Inr diag2_points
   \<and> sorted_wrt (\<lambda>p q. pt_y p * 4 + pt_x p < pt_y q * 4 + pt_x q) diag2_points
   \<and> map (\<lambda>p. pt_y p * 4 + pt_x p) diag2_points = [5, 10]"
  using findBrightPoints_scan_order [OF diag2_found] diag2_found
  by (simp add: diag2_points_def)

section \<open>A pass and the particle buffer\<close>

lemma process_frame_Inr:
  assumes "process_frame pixels width height positions = Inr positions'"
  obtains brightPoints where "findBrightPoints pixels width height = Inr brightPoints"
    and "positions' = updateParticleSystem brightPoints width height positions"
    and "0 < width" and "0 < height"
  using assms by (auto simp: process_frame_def split: if_splits sum.splits)

lemma process_frame_length:
  "process_frame pixels width height positions = Inr positions' \<Longrightarrow>
   length positions' = length positions"
  by (erule process_frame_Inr) (simp add: updateParticleSystem_length)

lemma detectReflections_capacity:
  "length (particles (detectReflections v d)) = length (particles d)"
  by (auto simp: detectReflections_def process_frame_length split: sum.splits)

lemma step_capacity: "length (particles (step d ev)) = length (particles d)"
  by (cases ev) (simp_all add: detectReflections_capacity)

lemma run_capacity: "length (particles (run d evs)) = length (particles d)"
  unfolding run_def by (induction evs arbitrary: d) (simp_all add: step_capacity)

text \<open>
  Claim C7. A pass that produces n ranked points (n \<le> maxBrightPoints) overwrites the
  first n position entries of the particle buffer, three numbers each, with the
  projected positions; every entry from n on keeps the value it had before the pass;
  and the capacity of the buffer stays what \<open>initParticleSystem\<close> made it, whatever
  the events the driver handles.
\<close>

theorem pass_overwrites_first_entries:
  "(\<forall>positions'. process_frame pixels width height positions = Inr positions' \<longrightarrow>
      (\<exists>brightPoints. findBrightPoints pixels width height = Inr brightPoints
         \<and> length (rank brightPoints) \<le> maxBrightPoints
         \<and> length positions' = length positions
         \<and> (\<forall>k < length positions.
               positions' ! k =
                 (if k < length (rank brightPoints) * 3
                  then written (rank brightPoints) width height k else positions ! k))))
   \<and> length (particles (run constructor evs)) = maxBrightPoints * 3"
proof (intro conjI allI impI)
  fix positions'
  assume "process_frame pixels width height positions = Inr positions'"
  then obtain brightPoints where f: "findBrightPoints pixels width height = Inr brightPoints"
    and p: "positions' = updateParticleSystem brightPoints width height positions"
    by (rule process_frame_Inr)
  show "\<exists>brightPoints. findBrightPoints pixels width height = Inr brightPoints
         \<and> length (rank brightPoints) \<le> maxBrightPoints
         \<and> length positions' = length positions
         \<and> (\<forall>k < length positions.
               positions' ! k =
                 (if k < length (rank brightPoints) * 3
                  then written (rank brightPoints) width height k else positions ! k))"
    using f unfolding p
    by (intro exI [of _ brightPoints])
       (simp add: rank_length updateParticleSystem_length updateParticleSystem_nth)
next
  show "length (particles (run constructor evs)) = maxBrightPoints * 3"
    by (simp add: run_capacity constructor_def initParticleSystem_def)
qed

lemma rank_diag2: "rank diag2_points = diag2_points"
  by (simp add: rank_def diag2_points_def maxBrightPoints_def)

lemma update_diag2_sevens:
  "updateParticleSystem diag2_points 4 4 sevens =
     [Some (- (1 / 2)), Some (1 / 2), Some (- (1 / 10)), Some 0, Some 0, Some (- (1 / 10)),
      Some 7, Some 7, Some 7, Some 7, Some 7, Some 7, Some 7, Some 7, Some 7]"
  by code_simp

lemma process_diag2_sevens:
  "process_frame diag2 4 4 sevens =
     Inr [Some (- (1 / 2)), Some (1 / 2), Some (- (1 / 10)), Some 0, Some 0, Some (- (1 / 10)),
      Some 7, Some 7, Some 7, Some 7, Some 7, Some 7, Some 7, Some 7, Some 7]"
  by (simp add: process_frame_def diag2_found update_diag2_sevens)


theorem pass_overwrites_first_entries_witness:
  "process_frame diag2 4 4 sevens =
     Inr [Some (- (1 / 2)), Some (1 / 2), Some (- (1 / 10)), Some 0, Some 0, Some (- (1 / 10)),
      Some 7, Some 7, Some 7, Some 7, Some 7, Some 7, Some 7, Some 7, Some 7]
   \<and> findBrightPoints diag2 4 4 = Inr diag2_points
   \<and> length (rank diag2_points) = 2
   \<and> written (rank diag2_points) 4 4 0 = Some (- (1 / 2))
   \<and> written (rank diag2_points) 4 4 5 = Some (- (1 / 10))
   \<and> sevens ! 6 = Some 7
   \<and> sevens ! 14 = Some 7
   \<and> length (particles (run constructor [Resolved, AnimationFrame diag2_video, AnimationFrame diag2_video]))
       = maxBrightPoints * 3"
proof -
  let ?X = "[Some (- (1 / 2)), Some (1 / 2), Some (- (1 / 10)), Some 0, Some 0, Some (- (1 / 10)),
      Some 7, Some 7, Some 7, Some 7, Some 7, Some 7, Some 7, Some 7, Some 7] :: num list"
  note t = pass_overwrites_first_entries
    [of diag2 4 4 sevens "[Resolved, AnimationFrame diag2_video, AnimationFrame diag2_video]"]
  from t [THEN conjunct1, rule_format, OF process_diag2_sevens]
  obtain brightPoints where f: "findBrightPoints diag2 4 4 = Inr brightPoints"
    and n: "\<forall>k < length sevens. ?X ! k =
       (if k < length (rank brightPoints) * 3 then written (rank brightPoints) 4 4 k else sevens ! k)"
    by blast
  from f have bp: "brightPoints = diag2_points" by (simp add: diag2_found)
  have len: "length sevens = 15" by (simp add: sevens_def)
  have r: "length (rank diag2_points) = 2" unfolding rank_diag2 by (simp add: diag2_points_def)
  have w0: "written (rank diag2_points) 4 4 0 = Some (- (1 / 2))"
    using n [rule_format, of 0] by (simp add: bp len r)
  have w5: "written (rank diag2_points) 4 4 5 = Some (- (1 / 10))"
    using n [rule_format, of 5] by (simp add: bp len r)
  have k6: "sevens ! 6 = Some 7"
    using n [rule_format, of 6] by (simp add: bp len r)
  have k14: "sevens ! 14 = Some 7"
    using n [rule_format, of 14] by (simp add: bp len r)
  show ?thesis
    by (intro conjI process_diag2_sevens diag2_found r w0 w5 k6 k14 t [THEN conjunct2])
qed

section \<open>Two passes on one frame\<close>

lemma updateParticleSystem_idem:
  "updateParticleSystem brightPoints w h (updateParticleSystem brightPoints w h positions) =
   updateParticleSystem brightPoints w h positions"
  by (rule nth_equalityI)
     (simp_all add: updateParticleSystem_length updateParticleSystem_nth)

lemma updateParticleSystem_prefix:
  assumes "length b = length b'"
  shows "take (length (rank brightPoints) * 3) (updateParticleSystem brightPoints w h b) =
         take (length (rank brightPoints) * 3) (updateParticleSystem brightPoints w h b')"
  using assms
  by (intro nth_equalityI)
     (simp_all add: updateParticleSystem_length updateParticleSystem_nth)

text \<open>
  Claim C8. Two runs of the pipeline on one frame give the same result, in order and
  in values: a run that fails fails alike from any buffer; a second run, on the
  buffer that the first has left, returns that buffer unchanged; and two runs from
  any two buffers of one capacity write the same projected points, the first
  3 * n numbers of the buffer for the n ranked points.
\<close>

theorem pipeline_deterministic:
  "(\<forall>e. process_frame pixels width height b = Inl e \<longrightarrow>
        process_frame pixels width height b' = Inl e)
   \<and> (\<forall>p1. process_frame pixels width height b = Inr p1 \<longrightarrow>
        process_frame pixels width height p1 = Inr p1)
   \<and> (\<forall>p1 p2 brightPoints.
        process_frame pixels width height b = Inr p1 \<and> process_frame pixels width height b' = Inr p2
        \<and> length b = length b' \<and> findBrightPoints pixels width height = Inr brightPoints \<longrightarrow>
        take (length (rank brightPoints) * 3) p1 = take (length (rank brightPoints) * 3) p2)"
proof (intro conjI allI impI)
  fix e
  assume "process_frame pixels width height b = Inl e"
  then show "process_frame pixels width height b' = Inl e"
    by (auto simp: process_frame_def split: if_splits sum.splits)
next
  fix p1
  assume "process_frame pixels width height b = Inr p1"
  then obtain brightPoints where f: "findBrightPoints pixels width height = Inr brightPoints"
    and p: "p1 = updateParticleSystem brightPoints width height b"
    and "0 < width" "0 < height"
    by (rule process_frame_Inr)
  then show "process_frame pixels width height p1 = Inr p1"
    by (simp add: process_frame_def updateParticleSystem_idem)
next
  fix p1 p2 brightPoints
  assume a: "process_frame pixels width height b = Inr p1 \<and> process_frame pixels width height b' = Inr p2
        \<and> length b = length b' \<and> findBrightPoints pixels width height = Inr brightPoints"
  then have "p1 = updateParticleSystem brightPoints width height b"
    "p2 = updateParticleSystem brightPoints width height b'"
    by (auto elim!: process_frame_Inr)
  then show "take (length (rank brightPoints) * 3) p1 = take (length (rank brightPoints) * 3) p2"
    using a updateParticleSystem_prefix by blast
qed

subsection \<open>Two passes on the frame with two points\<close>

lemma update_diag2_init:
  "updateParticleSystem diag2_points 4 4 initParticleSystem =
     [Some (- (1 / 2)), Some (1 / 2), Some (- (1 / 10)), Some 0, Some 0, Some (- (1 / 10)),
      Some 0, Some 0, Some 0, Some 0, Some 0, Some 0, Some 0, Some 0, Some 0]"
  by code_simp

lemma process_diag2_init:
  "process_frame diag2 4 4 initParticleSystem =
     Inr [Some (- (1 / 2)), Some (1 / 2), Some (- (1 / 10)), Some 0, Some 0, Some (- (1 / 10)),
      Some 0, Some 0, Some 0, Some 0, Some 0, Some 0, Some 0, Some 0, Some 0]"
  by (simp add: process_frame_def diag2_found update_diag2_init)

lemma process_wide: "process_frame wide 2 1 positions = Inl TypeError"
  using wide_found by (simp add: process_frame_def)

theorem pipeline_deterministic_witness:
  "process_frame wide 2 1 sevens = Inl TypeError
   \<and> process_frame wide 2 1 initParticleSystem = Inl TypeError
   \<and> process_frame diag2 4 4 sevens =
     Inr [Some (- (1 / 2)), Some (1 / 2), Some (- (1 / 10)), Some 0, Some 0, Some (- (1 / 10)),
      Some 7, Some 7, Some 7, Some 7, Some 7, Some 7, Some 7, Some 7, Some 7]
   \<and> process_frame diag2 4 4
       [Some (- (1 / 2)), Some (1 / 2), Some (- (1 / 10)), Some 0, Some 0, Some (- (1 / 10)),
        Some 7, Some 7, Some 7, Some 7, Some 7, Some 7, Some 7, Some 7, Some 7] =
     Inr [Some (- (1 / 2)), Some (1 / 2), Some (- (1 / 10)), Some 0, Some 0, Some (- (1 / 10)),
      Some 7, Some 7, Some 7, Some 7, Some 7, Some 7, Some 7, Some 7, Some 7]
   \<and> length sevens = length initParticleSystem
   \<and> take (length (rank diag2_points) * 3)
       [Some (- (1 / 2)), Some (1 / 2), Some (- (1 / 10)), Some 0, Some 0, Some (- (1 / 10)),
        Some 7, Some 7, Some 7, Some 7, Some 7, Some 7, Some 7, Some 7, Some 7] =
     take (length (rank diag2_points) * 3)
       [Some (- (1 / 2)), Some (1 / 2), Some (- (1 / 10)), Some 0, Some 0, Some (- (1 / 10)),
        Some 0, Some 0, Some 0, Some 0, Some 0, Some 0, Some 0, Some 0, Some (0::real)]"
proof -
  note tw = pipeline_deterministic [of wide 2 1 sevens initParticleSystem]
  note td = pipeline_deterministic [of diag2 4 4 sevens initParticleSystem]
  have len: "length sevens = length initParticleSystem"
    by (simp add: sevens_def initParticleSystem_length)
  have e2: "process_frame wide 2 1 initParticleSystem = Inl TypeError"
    by (rule tw [THEN conjunct1, rule_format, OF process_wide])
  note again = td [THEN conjunct2, THEN conjunct1, rule_format, OF process_diag2_sevens]
  note same = td [THEN conjunct2, THEN conjunct2, rule_format,
      OF conjI [OF process_diag2_sevens conjI [OF process_diag2_init conjI [OF len diag2_found]]]]
  show ?thesis
    by (intro conjI process_wide e2 process_diag2_sevens again len same)
qed

section \<open>A failed acquisition\<close>

lemma step_idle:
  "\<not> promise_pending d \<Longrightarrow> \<not> frame_requested d \<Longrightarrow> step d ev = d"
  by (cases ev) simp_all

lemma run_idle:
  "\<not> promise_pending d \<Longrightarrow> \<not> frame_requested d \<Longrightarrow> run d evs = d"
  unfolding run_def by (induction evs) (simp_all add: step_idle)

lemma run_Cons: "run d (ev # evs) = run (step d ev) evs"
  by (simp add: run_def)

text \<open>
  Claim C9. When the acquisition of the capture source fails, the failure is reported
  once on the diagnostic channel, and from then on, whatever the events, the driver
  performs no pass, leaves the particle buffer as \<open>initParticleSystem\<close> made it, has
  no animation frame requested, and has called \<open>getUserMedia\<close> the one time of the
  constructor.
\<close>

theorem failed_acquisition_stays_idle:
  "console (run constructor (Rejected err # evs)) = [''Webcam initialization failed: '' @ err]
   \<and> passes (run constructor (Rejected err # evs)) = 0
   \<and> particles (run constructor (Rejected err # evs)) = initParticleSystem
   \<and> \<not> frame_requested (run constructor (Rejected err # evs))
   \<and> \<not> stream_attached (run constructor (Rejected err # evs))
   \<and> getUserMedia_calls (run constructor (Rejected err # evs)) = 1"
proof -
  let ?d = "step constructor (Rejected err)"
  have "\<not> promise_pending ?d" "\<not> frame_requested ?d" by (simp_all add: constructor_def)
  then have "run constructor (Rejected err # evs) = ?d"
    unfolding run_Cons by (rule run_idle)
  then show ?thesis by (simp add: constructor_def)
qed

theorem failed_acquisition_stays_idle_witness:
  "console (run constructor [Rejected ''NotAllowedError'', AnimationFrame diag2_video, Resolved,
      Rejected ''NotFoundError'', AnimationFrame diag2_video])
     = [''Webcam initialization failed: NotAllowedError'']
   \<and> passes (run constructor [Rejected ''NotAllowedError'', AnimationFrame diag2_video, Resolved,
      Rejected ''NotFoundError'', AnimationFrame diag2_video]) = 0
   \<and> particles (run constructor [Rejected ''NotAllowedError'', AnimationFrame diag2_video, Resolved,
      Rejected ''NotFoundError'', AnimationFrame diag2_video]) = initParticleSystem"
  using failed_acquisition_stays_idle [of "''NotAllowedError''"
      "[AnimationFrame diag2_video, Resolved, Rejected ''NotFoundError'', AnimationFrame diag2_video]"]
  by simp

text \<open>A granted acquisition, for comparison: the first ready frame is processed.\<close>

lemma run_success:
  "particles (run constructor [Resolved, AnimationFrame diag2_video]) =
     [Some (- (1 / 2)), Some (1 / 2), Some (- (1 / 10)), Some 0, Some 0, Some (- (1 / 10)),
      Some 0, Some 0, Some 0, Some 0, Some 0, Some 0, Some 0, Some 0, Some 0]
   \<and> passes (run constructor [Resolved, AnimationFrame diag2_video]) = 1
   \<and> frame_requested (run constructor [Resolved, AnimationFrame diag2_video])"
  by (simp add: run_def constructor_def detectReflections_def diag2_video_def process_diag2_init)

end
